theory Spec2Isabelle
  imports Main "HOL-Library.Word" "HOL-Library.Sublist"
begin

section \<open>Domain audit: snapshots, change summary, failover differ\<close>

text \<open>
  A shallow embedding of \<^verbatim>\<open>common/domain/audit/comparison.go\<close>,
  \<^verbatim>\<open>common/domain/audit/compression.go\<close> and of the failover-history handlers of the
  frontend (\<^verbatim>\<open>shouldIncludeEvent\<close>, \<^verbatim>\<open>matchesAttributeFilter\<close>,
  \<^verbatim>\<open>GetFailoverEvent\<close>).

  Conventions of the embedding:
  \<^item> a Go pointer \<^verbatim>\<open>*T\<close> is a \<open>T option\<close>, \<open>None\<close> being \<^verbatim>\<open>nil\<close>;
  \<^item> a Go \<^verbatim>\<open>map[string]V\<close> is an optional association list: \<open>None\<close> is the
    \<^verbatim>\<open>nil\<close> map, and the list gives the entries in the order in which one
    \<^verbatim>\<open>range\<close> over the map meets them. A Go map holds a key once, which is the
    well-formedness predicate \<open>wf_map\<close>; Go leaves the order unspecified, so the theorems
    speak of the set of the emitted records and hold for every order of the entries;
  \<^item> a Go slice is a list (a \<^verbatim>\<open>nil\<close> slice and an empty slice both \<open>[]\<close>: the
    code only takes \<^verbatim>\<open>len\<close>, appends and ranges);
  \<^item> \<^verbatim>\<open>int64\<close> is \<open>64 word\<close>, \<^verbatim>\<open>[]byte\<close> is \<open>8 word list\<close>;
  \<^item> a function returning \<^verbatim>\<open>(T, error)\<close> returns \<open>go_error + T\<close>; a run-time panic
    (a \<^verbatim>\<open>nil\<close> dereference) is the value \<open>Inl NilPointerPanic\<close>;
  \<^item> log statements are left out: no result depends on them.
\<close>

subsection \<open>Data model\<close>

type_synonym bytes = "8 word list"

type_synonym ('k, 'v) gomap = "('k \<times> 'v) list option"

datatype go_error =
    ErrShuttingDown
  | BadRequestError string
  | InternalServiceError string
  | CollaboratorError string
  | NilPointerPanic

text \<open>
  The declarations of \<^verbatim>\<open>types.ActiveClusterInfo\<close>, \<^verbatim>\<open>types.ClusterAttributeScope\<close>,
  \<^verbatim>\<open>types.ActiveClusters\<close>, \<^verbatim>\<open>types.ClusterAttribute\<close>, \<^verbatim>\<open>types.ClusterFailover\<close> and
  \<^verbatim>\<open>persistence.GetDomainResponse\<close> are not part of the audited files; the records below
  have the fields that the audited code and its tests read and write, with the field's Go
  name after a prefix that tells the records apart.
\<close>

record ActiveClusterInfo =
  info_ActiveClusterName :: string
  info_FailoverVersion :: "64 word"

record ClusterAttributeScope =
  ClusterAttributes :: "(string, ActiveClusterInfo) gomap"

record ActiveClusters =
  AttributeScopes :: "(string, ClusterAttributeScope) gomap"

record ClusterReplicationConfig =
  ClusterName :: string

record DomainReplicationConfig =
  rc_ActiveClusterName :: string
  rc_Clusters :: "ClusterReplicationConfig option list"
  rc_ActiveClusters :: "ActiveClusters option"

record DomainInfo =
  info_ID :: string
  info_Name :: string

record DomainConfig =
  Retention :: "32 word"

record GetDomainResponse =
  Info :: "DomainInfo option"
  Config :: "DomainConfig option"
  ReplicationConfig :: "DomainReplicationConfig option"

record ClusterAttribute =
  attr_Scope :: string
  attr_Name :: string

record ClusterFailover =
  FromCluster :: "ActiveClusterInfo option"
  ToCluster :: "ActiveClusterInfo option"
  ClusterAttribute :: "ClusterAttribute option"
  IsDefaultCluster :: "bool option"

record ClusterAttributeRef =
  ref_Scope :: string
  ref_Name :: string

record ChangeSummary =
  ChangedFields :: "string list"
  DefaultClusterChanged :: bool
  ClusterAttributesChanged :: "ClusterAttributeRef option list"

subsection \<open>Go maps\<close>

definition wf_map :: "('k, 'v) gomap \<Rightarrow> bool" where
  "wf_map m = (case m of None \<Rightarrow> True | Some kvs \<Rightarrow> distinct (map fst kvs))"

text \<open>The entries a \<^verbatim>\<open>range\<close> over the map visits; a \<^verbatim>\<open>nil\<close> map has none.\<close>

definition entries :: "('k, 'v) gomap \<Rightarrow> ('k \<times> 'v) list" where
  "entries m = (case m of None \<Rightarrow> [] | Some kvs \<Rightarrow> kvs)"

text \<open>\<^verbatim>\<open>v, ok := m[k]\<close>: \<open>None\<close> when \<^verbatim>\<open>ok\<close> is false.\<close>

definition lookup :: "('k, 'v) gomap \<Rightarrow> 'k \<Rightarrow> 'v option" where
  "lookup m k = map_of (entries m) k"

text \<open>
  The key set \<^verbatim>\<open>all := make(map[string]bool)\<close> after \<^verbatim>\<open>all[k] = true\<close> for every key
  of the first and then of the second map: every key once.
\<close>

definition all_keys :: "('k \<times> 'v) list \<Rightarrow> ('k \<times> 'w) list \<Rightarrow> 'k list" where
  "all_keys xs ys = remdups (map fst xs @ map fst ys)"

definition wf_scope :: "ClusterAttributeScope \<Rightarrow> bool" where
  "wf_scope sd = wf_map (ClusterAttributes sd)"

definition wf_clusters :: "ActiveClusters option \<Rightarrow> bool" where
  "wf_clusters ac = (case ac of None \<Rightarrow> True
     | Some c \<Rightarrow> wf_map (AttributeScopes c) \<and> list_all (\<lambda>(s, sd). wf_scope sd) (entries (AttributeScopes c)))"

definition wf_snapshot :: "GetDomainResponse \<Rightarrow> bool" where
  "wf_snapshot d = (case ReplicationConfig d of None \<Rightarrow> True | Some rc \<Rightarrow> wf_clusters (rc_ActiveClusters rc))"

subsection \<open>The change summary (write time)\<close>

text \<open>
  The inner loop of \<^verbatim>\<open>compareClusterAttributes\<close>: over the attributes of one scope of
  \<^verbatim>\<open>after\<close>, given the attribute map of the same scope of \<^verbatim>\<open>before\<close>.
\<close>

fun compareNames :: "string \<Rightarrow> (string, ActiveClusterInfo) gomap \<Rightarrow> (string \<times> ActiveClusterInfo) list
    \<Rightarrow> ClusterAttributeRef option list" where
  "compareNames scope beforeAttrs [] = []"
| "compareNames scope beforeAttrs ((name, afterInfo) # rest) =
     (case lookup beforeAttrs name of
        None \<Rightarrow> compareNames scope beforeAttrs rest
      | Some beforeInfo \<Rightarrow>
          (if info_ActiveClusterName beforeInfo \<noteq> info_ActiveClusterName afterInfo
           then Some \<lparr>ref_Scope = scope, ref_Name = name\<rparr> # compareNames scope beforeAttrs rest
           else compareNames scope beforeAttrs rest))"

text \<open>The outer loop, over the scopes of \<^verbatim>\<open>after\<close>.\<close>

fun compareScopes :: "(string, ClusterAttributeScope) gomap \<Rightarrow> (string \<times> ClusterAttributeScope) list
    \<Rightarrow> ClusterAttributeRef option list" where
  "compareScopes beforeScopes [] = []"
| "compareScopes beforeScopes ((scope, afterScopeData) # rest) =
     (case lookup beforeScopes scope of
        None \<Rightarrow> compareScopes beforeScopes rest
      | Some beforeScopeData \<Rightarrow>
          (if ClusterAttributes afterScopeData = None \<or> ClusterAttributes beforeScopeData = None
           then compareScopes beforeScopes rest
           else compareNames scope (ClusterAttributes beforeScopeData)
                  (entries (ClusterAttributes afterScopeData))
                @ compareScopes beforeScopes rest))"

definition compareClusterAttributes :: "ActiveClusters option \<Rightarrow> ActiveClusters option
    \<Rightarrow> ClusterAttributeRef option list" where
  "compareClusterAttributes before after =
     (case (before, after) of
        (Some b, Some a) \<Rightarrow>
          (if AttributeScopes b = None \<or> AttributeScopes a = None then []
           else compareScopes (AttributeScopes b) (entries (AttributeScopes a)))
      | _ \<Rightarrow> [])"

definition ComputeChangeSummary :: "GetDomainResponse option \<Rightarrow> GetDomainResponse option
    \<Rightarrow> go_error + ChangeSummary" where
  "ComputeChangeSummary before after =
     (case (before, after) of
        (Some b, Some a) \<Rightarrow>
          (let summary = \<lparr>ChangedFields = [], DefaultClusterChanged = False, ClusterAttributesChanged = []\<rparr> in
           case (ReplicationConfig b, ReplicationConfig a) of
             (Some brc, Some arc) \<Rightarrow>
               (let summary1 =
                      (if rc_ActiveClusterName brc \<noteq> rc_ActiveClusterName arc
                       then summary\<lparr>ChangedFields := ChangedFields summary @ [''ActiveClusterName''],
                                    DefaultClusterChanged := True\<rparr>
                       else summary);
                    changedAttrs = compareClusterAttributes (rc_ActiveClusters brc) (rc_ActiveClusters arc)
                in if length changedAttrs > 0
                   then Inr (summary1\<lparr>ChangedFields := ChangedFields summary1 @ [''ActiveClusters''],
                                      ClusterAttributesChanged := changedAttrs\<rparr>)
                   else Inr summary1)
           | _ \<Rightarrow> Inr summary)
      | _ \<Rightarrow> Inl NilPointerPanic)"

subsection \<open>The failover differ (read time)\<close>

text \<open>
  The guarded reads \<^verbatim>\<open>if attrs != nil && attrs.AttributeScopes != nil\<close> of
  \<^verbatim>\<open>computeClusterAttributeChanges\<close>: the scope map that is ranged over and looked up.
\<close>

definition scopes_of :: "ActiveClusters option \<Rightarrow> (string, ClusterAttributeScope) gomap" where
  "scopes_of attrs = (case attrs of None \<Rightarrow> None | Some c \<Rightarrow> AttributeScopes c)"

text \<open>
  \<^verbatim>\<open>if exists && scopeData.ClusterAttributes != nil\<close>: the attribute map of a scope that
  was looked up.
\<close>

definition attrs_of :: "ClusterAttributeScope option \<Rightarrow> (string, ActiveClusterInfo) gomap" where
  "attrs_of sd = (case sd of None \<Rightarrow> None | Some d \<Rightarrow> ClusterAttributes d)"

text \<open>The body of the loop over \<^verbatim>\<open>allNames\<close>.\<close>

definition attributeChange :: "string \<Rightarrow> (string, ActiveClusterInfo) gomap
    \<Rightarrow> (string, ActiveClusterInfo) gomap \<Rightarrow> string \<Rightarrow> ClusterFailover list" where
  "attributeChange scope beforeAttrs afterAttrs name =
     (let beforeInfo = lookup beforeAttrs name;
          afterInfo = lookup afterAttrs name;
          beforeCluster = (case beforeInfo of None \<Rightarrow> '''' | Some i \<Rightarrow> info_ActiveClusterName i);
          beforeVersion = (case beforeInfo of None \<Rightarrow> 0 | Some i \<Rightarrow> info_FailoverVersion i);
          afterCluster = (case afterInfo of None \<Rightarrow> '''' | Some i \<Rightarrow> info_ActiveClusterName i);
          afterVersion = (case afterInfo of None \<Rightarrow> 0 | Some i \<Rightarrow> info_FailoverVersion i)
      in if beforeCluster \<noteq> afterCluster
         then [\<lparr>FromCluster = Some \<lparr>info_ActiveClusterName = beforeCluster, info_FailoverVersion = beforeVersion\<rparr>,
                ToCluster = Some \<lparr>info_ActiveClusterName = afterCluster, info_FailoverVersion = afterVersion\<rparr>,
                ClusterAttribute = Some \<lparr>attr_Scope = scope, attr_Name = name\<rparr>,
                IsDefaultCluster = Some False\<rparr>]
         else [])"

text \<open>The body of the loop over \<^verbatim>\<open>allScopes\<close>.\<close>

definition scopeChanges :: "(string, ClusterAttributeScope) gomap \<Rightarrow> (string, ClusterAttributeScope) gomap
    \<Rightarrow> string \<Rightarrow> ClusterFailover list" where
  "scopeChanges beforeScopes afterScopes scope =
     (let beforeAttrs = attrs_of (lookup beforeScopes scope);
          afterAttrs = attrs_of (lookup afterScopes scope);
          allNames = all_keys (entries beforeAttrs) (entries afterAttrs)
      in concat (map (attributeChange scope beforeAttrs afterAttrs) allNames))"

definition computeClusterAttributeChanges :: "ActiveClusters option \<Rightarrow> ActiveClusters option
    \<Rightarrow> ClusterFailover list" where
  "computeClusterAttributeChanges beforeAttrs afterAttrs =
     (let allScopes = all_keys (entries (scopes_of beforeAttrs)) (entries (scopes_of afterAttrs))
      in concat (map (scopeChanges (scopes_of beforeAttrs) (scopes_of afterAttrs)) allScopes))"

definition ComputeClusterFailovers :: "GetDomainResponse option \<Rightarrow> GetDomainResponse option
    \<Rightarrow> go_error + ClusterFailover list" where
  "ComputeClusterFailovers before after =
     (case (before, after) of
        (Some b, Some a) \<Rightarrow>
          (let beforeRC = ReplicationConfig b; afterRC = ReplicationConfig a in
           if beforeRC = None \<and> afterRC = None then Inr []
           else
             let beforeCluster = (case beforeRC of None \<Rightarrow> '''' | Some rc \<Rightarrow> rc_ActiveClusterName rc);
                 afterCluster = (case afterRC of None \<Rightarrow> '''' | Some rc \<Rightarrow> rc_ActiveClusterName rc);
                 failovers =
                   (if beforeCluster \<noteq> afterCluster
                    then [\<lparr>FromCluster = Some \<lparr>info_ActiveClusterName = beforeCluster, info_FailoverVersion = 0\<rparr>,
                           ToCluster = Some \<lparr>info_ActiveClusterName = afterCluster, info_FailoverVersion = 0\<rparr>,
                           ClusterAttribute = None,
                           IsDefaultCluster = Some True\<rparr>]
                    else []);
                 beforeAttrs = (case beforeRC of None \<Rightarrow> None | Some rc \<Rightarrow> rc_ActiveClusters rc);
                 afterAttrs = (case afterRC of None \<Rightarrow> None | Some rc \<Rightarrow> rc_ActiveClusters rc)
             in Inr (failovers @ computeClusterAttributeChanges beforeAttrs afterAttrs))
      | _ \<Rightarrow> Inl NilPointerPanic)"

subsection \<open>The filter predicate (list path)\<close>

text \<open>
  \<^verbatim>\<open>shouldIncludeEvent\<close> and \<^verbatim>\<open>matchesAttributeFilter\<close> of the frontend handler. The filters
  are a pointer, as are the elements of \<^verbatim>\<open>filters.Attributes\<close> and of the summary's
  \<^verbatim>\<open>ClusterAttributesChanged\<close>. The parser \<^verbatim>\<open>json.Unmarshal\<close> belongs to the Go standard
  library; it is a parameter, \<open>Inl\<close> being its error.
\<close>

record ListFailoverHistoryRequestFilters =
  filters_DomainID :: "string option"
  DefaultActiveCluster :: "bool option"
  Attributes :: "ClusterAttribute option list"

text \<open>
  The inner loop \<^verbatim>\<open>for _, chg := range changed\<close> for one non-nil request: it returns at the
  first match, and reading \<^verbatim>\<open>chg.Scope\<close> of a \<^verbatim>\<open>nil\<close> element panics.
\<close>

fun matchChanged :: "ClusterAttribute \<Rightarrow> ClusterAttributeRef option list \<Rightarrow> go_error + bool" where
  "matchChanged req [] = Inr False"
| "matchChanged req (None # rest) = Inl NilPointerPanic"
| "matchChanged req (Some chg # rest) =
     (if ref_Scope chg = attr_Scope req \<and> ref_Name chg = attr_Name req then Inr True
      else matchChanged req rest)"

text \<open>The outer loop \<^verbatim>\<open>for _, req := range requested\<close>, which skips \<^verbatim>\<open>nil\<close> requests.\<close>

fun matchRequested :: "ClusterAttributeRef option list \<Rightarrow> ClusterAttribute option list \<Rightarrow> go_error + bool" where
  "matchRequested changed [] = Inr False"
| "matchRequested changed (None # rest) = matchRequested changed rest"
| "matchRequested changed (Some req # rest) =
     (case matchChanged req changed of
        Inl panic \<Rightarrow> Inl panic
      | Inr found \<Rightarrow> if found then Inr True else matchRequested changed rest)"

definition matchesAttributeFilter :: "ClusterAttributeRef option list \<Rightarrow> ClusterAttribute option list
    \<Rightarrow> go_error + bool" where
  "matchesAttributeFilter changed requested =
     (if length changed = 0 then Inr False else matchRequested changed requested)"

definition shouldIncludeEvent :: "(string \<Rightarrow> go_error + ChangeSummary) \<Rightarrow> string
    \<Rightarrow> ListFailoverHistoryRequestFilters option \<Rightarrow> go_error + bool" where
  "shouldIncludeEvent json_Unmarshal summaryJSON filters =
     (case json_Unmarshal summaryJSON of
        Inl err \<Rightarrow> Inr True
      | Inr summary \<Rightarrow>
          (case filters of
             None \<Rightarrow> Inl NilPointerPanic
           | Some f \<Rightarrow>
               if DefaultActiveCluster f = Some True \<and> \<not> DefaultClusterChanged summary then Inr False
               else if length (Attributes f) > 0
               then (case matchesAttributeFilter (ClusterAttributesChanged summary) (Attributes f) of
                       Inl panic \<Rightarrow> Inl panic
                     | Inr matches \<Rightarrow> if \<not> matches then Inr False else Inr True)
               else Inr True))"

subsection \<open>The snapshot codec\<close>

text \<open>
  \<^verbatim>\<open>SerializeAndCompress\<close> and \<^verbatim>\<open>DecompressAndDeserialize\<close> compose \<^verbatim>\<open>json.Marshal\<close>,
  \<^verbatim>\<open>snappy.Encode\<close>, \<^verbatim>\<open>snappy.Decode\<close> and \<^verbatim>\<open>json.Unmarshal\<close>. These four belong to
  libraries outside the repository and are parameters of the two functions;
  \<^verbatim>\<open>snappy.Encode\<close> returns no error.
\<close>

definition SerializeAndCompress :: "(GetDomainResponse option \<Rightarrow> go_error + bytes) \<Rightarrow> (bytes \<Rightarrow> bytes)
    \<Rightarrow> GetDomainResponse option \<Rightarrow> go_error + bytes" where
  "SerializeAndCompress json_Marshal snappy_Encode domain =
     (case json_Marshal domain of
        Inl err \<Rightarrow> Inl err
      | Inr jsonBytes \<Rightarrow> Inr (snappy_Encode jsonBytes))"

definition DecompressAndDeserialize :: "(bytes \<Rightarrow> go_error + bytes) \<Rightarrow> (bytes \<Rightarrow> go_error + GetDomainResponse)
    \<Rightarrow> bytes \<Rightarrow> go_error + GetDomainResponse" where
  "DecompressAndDeserialize snappy_Decode json_Unmarshal compressed =
     (case snappy_Decode compressed of
        Inl err \<Rightarrow> Inl err
      | Inr jsonBytes \<Rightarrow>
          (case json_Unmarshal jsonBytes of
             Inl err \<Rightarrow> Inl err
           | Inr domain \<Rightarrow> Inr domain))"

subsection \<open>The get path\<close>

text \<open>
  \<^verbatim>\<open>GetFailoverEvent\<close>. The storage collaborator \<^verbatim>\<open>GetDomainAuditLogEntry\<close> and the
  handler's \<^verbatim>\<open>isShuttingDown\<close> flag are parameters. The creation time goes to the storage
  as \<^verbatim>\<open>time.Unix(0, ms * 1000000)\<close>, a product of \<^verbatim>\<open>int64\<close>. The two tests
  \<^verbatim>\<open>len(entry.StateBefore) == 0\<close> and \<^verbatim>\<open>len(entry.StateAfter) == 0\<close> only log a warning,
  so they leave no trace here.
\<close>

record DomainAuditLogEntry =
  entry_DomainID :: string
  entry_EventID :: string
  StateBefore :: bytes
  StateAfter :: bytes
  Comment :: string

record GetDomainAuditLogEntryRequest =
  query_DomainID :: string
  query_EventID :: string
  query_CreatedTime :: "64 word"

record GetDomainAuditLogEntryResponse =
  Entry :: "DomainAuditLogEntry option"

record GetFailoverEventRequest =
  req_DomainID :: "string option"
  req_FailoverEventID :: "string option"
  req_CreatedTime :: "64 word option"

record GetFailoverEventResponse =
  ClusterFailovers :: "ClusterFailover list"

definition GetFailoverEvent :: "(bytes \<Rightarrow> go_error + bytes) \<Rightarrow> (bytes \<Rightarrow> go_error + GetDomainResponse)
    \<Rightarrow> (GetDomainAuditLogEntryRequest \<Rightarrow> go_error + GetDomainAuditLogEntryResponse option)
    \<Rightarrow> bool \<Rightarrow> GetFailoverEventRequest option \<Rightarrow> go_error + GetFailoverEventResponse" where
  "GetFailoverEvent snappy_Decode json_Unmarshal GetDomainAuditLogEntry isShuttingDown request =
     (if isShuttingDown then Inl ErrShuttingDown
      else case request of
        None \<Rightarrow> Inl NilPointerPanic
      | Some r \<Rightarrow>
         (case (req_DomainID r, req_FailoverEventID r, req_CreatedTime r) of
            (Some domainID, Some eventID, Some ms) \<Rightarrow>
              if domainID = '''' \<or> eventID = ''''
              then Inl (BadRequestError ''domain_id, failover_event_id, and created_time are required'')
              else
                (let createdTime = ms * 1000000 in
                 case GetDomainAuditLogEntry
                        \<lparr>query_DomainID = domainID, query_EventID = eventID, query_CreatedTime = createdTime\<rparr> of
                   Inl err \<Rightarrow> Inl err
                 | Inr None \<Rightarrow> Inr \<lparr>ClusterFailovers = []\<rparr>
                 | Inr (Some entryResp) \<Rightarrow>
                     (case Entry entryResp of
                        None \<Rightarrow> Inr \<lparr>ClusterFailovers = []\<rparr>
                      | Some entry \<Rightarrow>
                          (case DecompressAndDeserialize snappy_Decode json_Unmarshal (StateBefore entry) of
                             Inl err \<Rightarrow> Inl (InternalServiceError ''Failed to decompress domain state'')
                           | Inr before \<Rightarrow>
                               (case DecompressAndDeserialize snappy_Decode json_Unmarshal (StateAfter entry) of
                                  Inl err \<Rightarrow> Inl (InternalServiceError ''Failed to decompress domain state'')
                                | Inr after \<Rightarrow>
                                    (case ComputeClusterFailovers (Some before) (Some after) of
                                       Inl err \<Rightarrow>
                                         if err = NilPointerPanic then Inl NilPointerPanic
                                         else Inl (InternalServiceError ''Failed to compute failover details'')
                                     | Inr clusterFailovers \<Rightarrow>
                                         Inr \<lparr>ClusterFailovers = clusterFailovers\<rparr>)))))
          | _ \<Rightarrow> Inl (BadRequestError ''domain_id, failover_event_id, and created_time are required'')))"

subsection \<open>What the claims speak of\<close>

text \<open>
  The notions of the specification, written over the same data: the attribute map of a
  snapshot, the \<^verbatim>\<open>ActiveClusterInfo\<close> a side holds for a (scope, name) pair
  (\<open>None\<close> when the side lacks the pair), the cluster name and failover version that an
  absent pair resolves to, and the records the differ is to emit.
\<close>

definition clusters_of :: "GetDomainResponse \<Rightarrow> ActiveClusters option" where
  "clusters_of d = (case ReplicationConfig d of None \<Rightarrow> None | Some rc \<Rightarrow> rc_ActiveClusters rc)"

definition resolve :: "ActiveClusters option \<Rightarrow> string \<Rightarrow> string \<Rightarrow> ActiveClusterInfo option" where
  "resolve attrs scope name =
     (case lookup (scopes_of attrs) scope of None \<Rightarrow> None | Some sd \<Rightarrow> lookup (ClusterAttributes sd) name)"

definition owner_name :: "ActiveClusterInfo option \<Rightarrow> string" where
  "owner_name i = (case i of None \<Rightarrow> '''' | Some x \<Rightarrow> info_ActiveClusterName x)"

definition owner_version :: "ActiveClusterInfo option \<Rightarrow> 64 word" where
  "owner_version i = (case i of None \<Rightarrow> 0 | Some x \<Rightarrow> info_FailoverVersion x)"

definition attribute_record :: "string \<Rightarrow> string \<Rightarrow> ActiveClusterInfo option \<Rightarrow> ActiveClusterInfo option \<Rightarrow> ClusterFailover" where
  "attribute_record scope name bi ai =
     \<lparr>FromCluster = Some \<lparr>info_ActiveClusterName = owner_name bi, info_FailoverVersion = owner_version bi\<rparr>,
      ToCluster = Some \<lparr>info_ActiveClusterName = owner_name ai, info_FailoverVersion = owner_version ai\<rparr>,
      ClusterAttribute = Some \<lparr>attr_Scope = scope, attr_Name = name\<rparr>,
      IsDefaultCluster = Some False\<rparr>"

definition attribute_transitions :: "ActiveClusters option \<Rightarrow> ActiveClusters option \<Rightarrow> ClusterFailover set" where
  "attribute_transitions b a =
     {attribute_record s n (resolve b s n) (resolve a s n) | s n.
        (s, n) \<in> {(s, n). resolve b s n \<noteq> None} \<union> {(s, n). resolve a s n \<noteq> None}
        \<and> owner_name (resolve b s n) \<noteq> owner_name (resolve a s n)}"

definition default_name :: "GetDomainResponse \<Rightarrow> string" where
  "default_name d = (case ReplicationConfig d of None \<Rightarrow> '''' | Some rc \<Rightarrow> rc_ActiveClusterName rc)"

definition default_record :: "string \<Rightarrow> string \<Rightarrow> ClusterFailover" where
  "default_record bn an =
     \<lparr>FromCluster = Some \<lparr>info_ActiveClusterName = bn, info_FailoverVersion = 0\<rparr>,
      ToCluster = Some \<lparr>info_ActiveClusterName = an, info_FailoverVersion = 0\<rparr>,
      ClusterAttribute = None,
      IsDefaultCluster = Some True\<rparr>"

definition changed_pairs :: "ActiveClusters option \<Rightarrow> ActiveClusters option \<Rightarrow> (string \<times> string) set" where
  "changed_pairs b a =
     {(s, n). \<exists>bi ai. resolve b s n = Some bi \<and> resolve a s n = Some ai
        \<and> info_ActiveClusterName bi \<noteq> info_ActiveClusterName ai}"

definition attribute_ref :: "string \<times> string \<Rightarrow> ClusterAttributeRef option" where
  "attribute_ref p = Some \<lparr>ref_Scope = fst p, ref_Name = snd p\<rparr>"

definition empty_summary :: ChangeSummary where
  "empty_summary = \<lparr>ChangedFields = [], DefaultClusterChanged = False, ClusterAttributesChanged = []\<rparr>"

text \<open>
  A requested attribute matches the summary when one non-nil request has the scope and the
  name of one entry of the changed-attribute list; the response without any failover.
\<close>

definition attribute_matches :: "ClusterAttributeRef option list \<Rightarrow> ClusterAttribute option list \<Rightarrow> bool" where
  "attribute_matches changed requested =
     (\<exists>req chg. Some req \<in> set requested \<and> Some chg \<in> set changed
        \<and> ref_Scope chg = attr_Scope req \<and> ref_Name chg = attr_Name req)"

definition empty_response :: GetFailoverEventResponse where
  "empty_response = \<lparr>ClusterFailovers = []\<rparr>"

subsection \<open>Fixtures of the unit tests\<close>

text \<open>
  The snapshots built by \<^verbatim>\<open>TestComputeClusterFailovers_DefaultCluster\<close> and
  \<^verbatim>\<open>TestComputeClusterFailovers_ClusterAttributes\<close>: one scope \<^verbatim>\<open>"region"\<close> with the
  given attributes, in a domain with the given default cluster.
\<close>

definition region_scope :: "(string \<times> string \<times> 64 word) list \<Rightarrow> ActiveClusters" where
  "region_scope xs = \<lparr>AttributeScopes = Some [(''region'',
      \<lparr>ClusterAttributes = Some (map (\<lambda>(n, c, v). (n, \<lparr>info_ActiveClusterName = c, info_FailoverVersion = v\<rparr>)) xs)\<rparr>)]\<rparr>"

definition test_domain :: "string \<Rightarrow> ActiveClusters option \<Rightarrow> GetDomainResponse" where
  "test_domain c ac = \<lparr>Info = Some \<lparr>info_ID = ''test-domain'', info_Name = []\<rparr>, Config = None,
     ReplicationConfig = Some \<lparr>rc_ActiveClusterName = c, rc_Clusters = [], rc_ActiveClusters = ac\<rparr>\<rparr>"

definition attrs_before :: GetDomainResponse where
  "attrs_before = test_domain ''cluster1''
     (Some (region_scope [(''us-east-1'', ''cluster1'', 100), (''us-west-1'', ''cluster1'', 100)]))"

definition attrs_after :: GetDomainResponse where
  "attrs_after = test_domain ''cluster1''
     (Some (region_scope [(''us-east-1'', ''cluster2'', 101), (''us-west-1'', ''cluster1'', 100)]))"

definition default_before :: GetDomainResponse where
  "default_before = test_domain ''cluster1'' None"

definition default_after :: GetDomainResponse where
  "default_after = test_domain ''cluster2'' None"

definition no_replication :: GetDomainResponse where
  "no_replication = \<lparr>Info = None, Config = None, ReplicationConfig = None\<rparr>"

text \<open>
  \<^verbatim>\<open>TestComputeClusterFailovers_MixedFailover\<close>, and a pair the tests do not have: an
  attribute \<^verbatim>\<open>"us-west-1"\<close> that only the \<^verbatim>\<open>after\<close> side holds.
\<close>

definition mixed_before :: GetDomainResponse where
  "mixed_before = test_domain ''cluster1'' (Some (region_scope [(''us-east-1'', ''cluster1'', 100)]))"

definition mixed_after :: GetDomainResponse where
  "mixed_after = test_domain ''cluster2'' (Some (region_scope [(''us-east-1'', ''cluster3'', 101)]))"

definition added_after :: GetDomainResponse where
  "added_after = test_domain ''cluster1''
     (Some (region_scope [(''us-east-1'', ''cluster1'', 100), (''us-west-1'', ''cluster2'', 7)]))"

text \<open>
  Stand-ins for the library calls and for the storage, on which the general theorems are
  run: a compressor that puts a one-byte length before the data, a decompressor that drops
  it and rejects the empty input (a Snappy block begins with the length of its content, so
  the empty byte string is no block), a snapshot parser that knows two payloads, a summary
  parser that knows one text, a storage that returns the given entry.
\<close>

definition snappy_Decode_stub :: "bytes \<Rightarrow> go_error + bytes" where
  "snappy_Decode_stub bs = (if bs = [] then Inl (CollaboratorError ''snappy: corrupt input'') else Inr (tl bs))"


definition json_Unmarshal_stub :: "bytes \<Rightarrow> go_error + GetDomainResponse" where
  "json_Unmarshal_stub bs =
     (if bs = [1] then Inr default_before
      else if bs = [2] then Inr default_after
      else Inl (CollaboratorError ''invalid character''))"

definition summary_Unmarshal_stub :: "string \<Rightarrow> go_error + ChangeSummary" where
  "summary_Unmarshal_stub s =
     (if s = ''attrs'' then
        Inr \<lparr>ChangedFields = [''ActiveClusters''], DefaultClusterChanged = False,
             ClusterAttributesChanged = [attribute_ref (''region'', ''us-east-1'')]\<rparr>
      else Inl (CollaboratorError ''invalid character''))"

definition test_request :: GetFailoverEventRequest where
  "test_request = \<lparr>req_DomainID = Some ''domain'', req_FailoverEventID = Some ''event'',
     req_CreatedTime = Some 1\<rparr>"

definition test_entry :: "bytes \<Rightarrow> bytes \<Rightarrow> DomainAuditLogEntry" where
  "test_entry before after = \<lparr>entry_DomainID = ''domain'', entry_EventID = ''event'',
     StateBefore = before, StateAfter = after, Comment = []\<rparr>"

definition storage_stub :: "DomainAuditLogEntry option \<Rightarrow> GetDomainAuditLogEntryRequest
    \<Rightarrow> go_error + GetDomainAuditLogEntryResponse option" where
  "storage_stub entry q = Inr (Some \<lparr>Entry = entry\<rparr>)"

section \<open>Properties\<close>

subsection \<open>The failover differ\<close>

lemmas differ_defs = ComputeClusterFailovers_def computeClusterAttributeChanges_def scopeChanges_def
  attributeChange_def all_keys_def entries_def lookup_def scopes_of_def attrs_of_def

lemma set_all_keys: "set (all_keys xs ys) = fst ` set xs \<union> fst ` set ys"
  by (simp add: all_keys_def)

lemma distinct_all_keys: "distinct (all_keys xs ys)"
  by (simp add: all_keys_def)

lemma lookup_None_iff: "lookup m k = None \<longleftrightarrow> k \<notin> fst ` set (entries m)"
  by (simp add: lookup_def map_of_eq_None_iff)

lemma owner_name_differ: "owner_name x \<noteq> owner_name y \<Longrightarrow> x \<noteq> None \<or> y \<noteq> None"
  by (cases x; cases y) (simp_all add: owner_name_def)

lemma attributeChange_eq:
  "attributeChange scope bA aA name =
     (if owner_name (lookup bA name) \<noteq> owner_name (lookup aA name)
      then [attribute_record scope name (lookup bA name) (lookup aA name)] else [])"
  by (simp add: attributeChange_def attribute_record_def owner_name_def owner_version_def Let_def)

lemma resolve_eq: "resolve attrs s n = lookup (attrs_of (lookup (scopes_of attrs) s)) n"
  by (simp add: resolve_def attrs_of_def lookup_def entries_def split: option.splits)

lemma set_scopeChanges:
  "set (scopeChanges bS aS s) =
     {attribute_record s n (lookup (attrs_of (lookup bS s)) n) (lookup (attrs_of (lookup aS s)) n) | n.
        owner_name (lookup (attrs_of (lookup bS s)) n) \<noteq> owner_name (lookup (attrs_of (lookup aS s)) n)}"
  (is "?L = ?R")
proof
  show "?L \<subseteq> ?R"
    by (auto simp: scopeChanges_def Let_def attributeChange_eq split: if_splits)
next
  show "?R \<subseteq> ?L"
  proof
    fix f assume "f \<in> ?R"
    then obtain n where f: "f = attribute_record s n (lookup (attrs_of (lookup bS s)) n) (lookup (attrs_of (lookup aS s)) n)"
      and d: "owner_name (lookup (attrs_of (lookup bS s)) n) \<noteq> owner_name (lookup (attrs_of (lookup aS s)) n)"
      by blast
    from d have "lookup (attrs_of (lookup bS s)) n \<noteq> None \<or> lookup (attrs_of (lookup aS s)) n \<noteq> None"
      by (rule owner_name_differ)
    then have "n \<in> set (all_keys (entries (attrs_of (lookup bS s))) (entries (attrs_of (lookup aS s))))"
      by (auto simp: set_all_keys lookup_None_iff)
    with f d show "f \<in> ?L"
      by (auto simp: scopeChanges_def Let_def attributeChange_eq)
  qed
qed

lemma attrs_of_None [simp]: "attrs_of None = None"
  by (simp add: attrs_of_def)

lemma lookup_nil_map [simp]: "lookup None k = None"
  by (simp add: lookup_def entries_def)

lemma set_computeClusterAttributeChanges:
  "set (computeClusterAttributeChanges b a) = attribute_transitions b a" (is "?L = ?R")
proof
  show "?L \<subseteq> ?R"
  proof
    fix f assume "f \<in> ?L"
    then obtain s where "f \<in> set (scopeChanges (scopes_of b) (scopes_of a) s)"
      by (auto simp: computeClusterAttributeChanges_def Let_def)
    then obtain n where f: "f = attribute_record s n (resolve b s n) (resolve a s n)"
      and d: "owner_name (resolve b s n) \<noteq> owner_name (resolve a s n)"
      by (auto simp: set_scopeChanges resolve_eq)
    from d have "resolve b s n \<noteq> None \<or> resolve a s n \<noteq> None"
      by (rule owner_name_differ)
    with f d show "f \<in> ?R"
      unfolding attribute_transitions_def by blast
  qed
next
  show "?R \<subseteq> ?L"
  proof
    fix f assume "f \<in> ?R"
    then obtain s n where f: "f = attribute_record s n (resolve b s n) (resolve a s n)"
      and d: "owner_name (resolve b s n) \<noteq> owner_name (resolve a s n)"
      unfolding attribute_transitions_def by blast
    from d have "resolve b s n \<noteq> None \<or> resolve a s n \<noteq> None"
      by (rule owner_name_differ)
    then have "lookup (scopes_of b) s \<noteq> None \<or> lookup (scopes_of a) s \<noteq> None"
      by (auto simp: resolve_def)
    then have "s \<in> set (all_keys (entries (scopes_of b)) (entries (scopes_of a)))"
      by (auto simp: set_all_keys lookup_None_iff)
    moreover have "f \<in> set (scopeChanges (scopes_of b) (scopes_of a) s)"
      using f d by (auto simp: set_scopeChanges resolve_eq)
    ultimately show "f \<in> ?L"
      by (auto simp: computeClusterAttributeChanges_def Let_def)
  qed
qed

lemma attributeChange_attr:
  "f \<in> set (concat (map (attributeChange s bA aA) ks))
   \<Longrightarrow> \<exists>n \<in> set ks. ClusterAttribute f = Some \<lparr>attr_Scope = s, attr_Name = n\<rparr>"
  by (auto simp: attributeChange_eq attribute_record_def split: if_splits)

lemma distinct_attributeChanges:
  "distinct ks \<Longrightarrow> distinct (concat (map (attributeChange s bA aA) ks))"
proof (induction ks)
  case Nil
  then show ?case by simp
next
  case (Cons k ks)
  have "set (attributeChange s bA aA k) \<inter> set (concat (map (attributeChange s bA aA) ks)) = {}"
  proof (rule ccontr)
    assume "\<not> ?thesis"
    then obtain f where f1: "f \<in> set (attributeChange s bA aA k)"
      and f2: "f \<in> set (concat (map (attributeChange s bA aA) ks))" by blast
    from f1 have "ClusterAttribute f = Some \<lparr>attr_Scope = s, attr_Name = k\<rparr>"
      by (auto simp: attributeChange_eq attribute_record_def split: if_splits)
    moreover from attributeChange_attr [OF f2] obtain n where "n \<in> set ks"
      and "ClusterAttribute f = Some \<lparr>attr_Scope = s, attr_Name = n\<rparr>" by blast
    ultimately have "k \<in> set ks" by simp
    with Cons.prems show False by simp
  qed
  moreover have "distinct (attributeChange s bA aA k)"
    by (simp add: attributeChange_eq)
  ultimately show ?case using Cons by simp
qed

lemma distinct_scopeChanges: "distinct (scopeChanges bS aS s)"
  by (simp add: scopeChanges_def Let_def distinct_attributeChanges distinct_all_keys)

lemma scopeChanges_attr:
  "f \<in> set (scopeChanges bS aS s) \<Longrightarrow> \<exists>n. ClusterAttribute f = Some \<lparr>attr_Scope = s, attr_Name = n\<rparr>"
  by (auto simp: set_scopeChanges attribute_record_def)

lemma distinct_scopes:
  "distinct ss \<Longrightarrow> distinct (concat (map (scopeChanges bS aS) ss))"
proof (induction ss)
  case Nil
  then show ?case by simp
next
  case (Cons s ss)
  have "set (scopeChanges bS aS s) \<inter> set (concat (map (scopeChanges bS aS) ss)) = {}"
  proof (rule ccontr)
    assume "\<not> ?thesis"
    then obtain f s' where f1: "f \<in> set (scopeChanges bS aS s)"
      and s': "s' \<in> set ss" and f2: "f \<in> set (scopeChanges bS aS s')" by auto
    from scopeChanges_attr [OF f1] scopeChanges_attr [OF f2] have "s = s'" by auto
    with s' Cons.prems show False by simp
  qed
  then show ?case using Cons by (simp add: distinct_scopeChanges)
qed

lemma distinct_computeClusterAttributeChanges: "distinct (computeClusterAttributeChanges b a)"
  by (simp add: computeClusterAttributeChanges_def Let_def distinct_scopes distinct_all_keys)

lemma attribute_changes_not_default:
  "f \<in> set (computeClusterAttributeChanges b a) \<Longrightarrow> IsDefaultCluster f = Some False"
  by (auto simp: set_computeClusterAttributeChanges attribute_transitions_def attribute_record_def)

lemma filter_attribute_changes:
  "filter (\<lambda>f. IsDefaultCluster f = Some False) (computeClusterAttributeChanges b a)
     = computeClusterAttributeChanges b a"
  by (simp add: attribute_changes_not_default)

lemma filter_default_changes:
  "filter (\<lambda>f. IsDefaultCluster f = Some True) (computeClusterAttributeChanges b a) = []"
  by (auto simp: filter_empty_conv dest: attribute_changes_not_default)

lemma computeClusterAttributeChanges_nil [simp]: "computeClusterAttributeChanges None None = []"
  by (simp add: computeClusterAttributeChanges_def scopes_of_def entries_def all_keys_def)

lemma ComputeClusterFailovers_eq:
  "ComputeClusterFailovers (Some b) (Some a) =
     Inr ((if (ReplicationConfig b \<noteq> None \<or> ReplicationConfig a \<noteq> None) \<and> default_name b \<noteq> default_name a
           then [default_record (default_name b) (default_name a)] else [])
          @ computeClusterAttributeChanges (clusters_of b) (clusters_of a))"
  by (simp add: ComputeClusterFailovers_def Let_def default_name_def default_record_def clusters_of_def)

text \<open>
  Claim C1. For every pair of snapshots, the records of \<^verbatim>\<open>ComputeClusterFailovers\<close> with
  \<^verbatim>\<open>IsDefaultCluster = false\<close> are, as a set, the records \<open>attribute_transitions\<close>:
  one for every (scope, name) pair that one of the two sides holds and whose owning-cluster
  names differ, a side without the pair resolving to the empty name and version 0; the
  record carries both sides' name and version, the pair as \<^verbatim>\<open>ClusterAttribute\<close>, and
  \<^verbatim>\<open>IsDefaultCluster = false\<close>. No record is emitted twice, every record has its
  \<^verbatim>\<open>IsDefaultCluster\<close> flag set, and the call returns no error.
\<close>

theorem C1_differ_attribute_records:
  "\<exists>fs. ComputeClusterFailovers (Some b) (Some a) = Inr fs
     \<and> set (filter (\<lambda>f. IsDefaultCluster f = Some False) fs)
         = attribute_transitions (clusters_of b) (clusters_of a)
     \<and> distinct (filter (\<lambda>f. IsDefaultCluster f = Some False) fs)
     \<and> list_all (\<lambda>f. IsDefaultCluster f = Some False \<or> IsDefaultCluster f = Some True) fs"
proof -
  let ?d = "if (ReplicationConfig b \<noteq> None \<or> ReplicationConfig a \<noteq> None) \<and> default_name b \<noteq> default_name a
            then [default_record (default_name b) (default_name a)] else []"
  let ?c = "computeClusterAttributeChanges (clusters_of b) (clusters_of a)"
  have e: "ComputeClusterFailovers (Some b) (Some a) = Inr (?d @ ?c)"
    by (rule ComputeClusterFailovers_eq)
  have "filter (\<lambda>f. IsDefaultCluster f = Some False) ?d = []"
    by (simp add: default_record_def)
  then have f: "filter (\<lambda>f. IsDefaultCluster f = Some False) (?d @ ?c) = ?c"
    by (simp only: filter_append filter_attribute_changes append_Nil)
  have "set ?c = attribute_transitions (clusters_of b) (clusters_of a)"
    by (rule set_computeClusterAttributeChanges)
  moreover have "distinct ?c"
    by (rule distinct_computeClusterAttributeChanges)
  moreover have "list_all (\<lambda>f. IsDefaultCluster f = Some False \<or> IsDefaultCluster f = Some True) ?d"
    by (simp add: default_record_def)
  then have "list_all (\<lambda>f. IsDefaultCluster f = Some False \<or> IsDefaultCluster f = Some True) (?d @ ?c)"
    by (simp only: list_all_append) (simp add: list_all_iff attribute_changes_not_default)
  ultimately show ?thesis
    using e f by (metis (no_types, lifting))
qed

theorem C1_differ_attribute_records_witness:
  "ComputeClusterFailovers (Some attrs_before) (Some attrs_after) =
     Inr [attribute_record ''region'' ''us-east-1''
            (Some \<lparr>info_ActiveClusterName = ''cluster1'', info_FailoverVersion = 100\<rparr>)
            (Some \<lparr>info_ActiveClusterName = ''cluster2'', info_FailoverVersion = 101\<rparr>)]
   \<and> attribute_transitions (clusters_of attrs_before) (clusters_of attrs_after) =
     {attribute_record ''region'' ''us-east-1''
        (Some \<lparr>info_ActiveClusterName = ''cluster1'', info_FailoverVersion = 100\<rparr>)
        (Some \<lparr>info_ActiveClusterName = ''cluster2'', info_FailoverVersion = 101\<rparr>)}"
proof -
  have e: "ComputeClusterFailovers (Some attrs_before) (Some attrs_after) =
     Inr [attribute_record ''region'' ''us-east-1''
            (Some \<lparr>info_ActiveClusterName = ''cluster1'', info_FailoverVersion = 100\<rparr>)
            (Some \<lparr>info_ActiveClusterName = ''cluster2'', info_FailoverVersion = 101\<rparr>)]"
    by (simp add: differ_defs attrs_before_def attrs_after_def test_domain_def region_scope_def
        attribute_record_def owner_name_def owner_version_def)
  from C1_differ_attribute_records [of attrs_before attrs_after] obtain fs
    where r: "ComputeClusterFailovers (Some attrs_before) (Some attrs_after) = Inr fs"
      and t: "set (filter (\<lambda>f. IsDefaultCluster f = Some False) fs)
                = attribute_transitions (clusters_of attrs_before) (clusters_of attrs_after)"
    by blast
  from r e have "fs = [attribute_record ''region'' ''us-east-1''
            (Some \<lparr>info_ActiveClusterName = ''cluster1'', info_FailoverVersion = 100\<rparr>)
            (Some \<lparr>info_ActiveClusterName = ''cluster2'', info_FailoverVersion = 101\<rparr>)]"
    by simp
  with t have "attribute_transitions (clusters_of attrs_before) (clusters_of attrs_after) =
     {attribute_record ''region'' ''us-east-1''
        (Some \<lparr>info_ActiveClusterName = ''cluster1'', info_FailoverVersion = 100\<rparr>)
        (Some \<lparr>info_ActiveClusterName = ''cluster2'', info_FailoverVersion = 101\<rparr>)}"
    by (simp add: attribute_record_def)
  with e show ?thesis by (rule conjI)
qed

text \<open>
  Claim C2. When at least one snapshot has a replication configuration, the records with
  \<^verbatim>\<open>IsDefaultCluster = true\<close> are exactly one record
  \<open>default_record\<close> (from the default cluster of \<^verbatim>\<open>before\<close> to that of \<^verbatim>\<open>after\<close>,
  both versions 0, no \<^verbatim>\<open>ClusterAttribute\<close>) if the two default names differ, and none if
  they are equal; a side without replication configuration counts with the empty name.
  When both sides lack the replication configuration the result is the empty list.
\<close>

theorem C2_differ_default_record:
  "(ReplicationConfig b \<noteq> None \<or> ReplicationConfig a \<noteq> None \<longrightarrow>
      (\<exists>fs. ComputeClusterFailovers (Some b) (Some a) = Inr fs
         \<and> filter (\<lambda>f. IsDefaultCluster f = Some True) fs
             = (if default_name b \<noteq> default_name a
                then [default_record (default_name b) (default_name a)] else [])))
   \<and> (ReplicationConfig b = None \<and> ReplicationConfig a = None \<longrightarrow>
        ComputeClusterFailovers (Some b) (Some a) = Inr [])"
  by (auto simp: ComputeClusterFailovers_eq default_record_def filter_default_changes clusters_of_def)

theorem C2_differ_default_record_witness:
  "ComputeClusterFailovers (Some default_before) (Some default_after) =
     Inr [default_record ''cluster1'' ''cluster2'']
   \<and> ComputeClusterFailovers (Some no_replication) (Some no_replication) = Inr []"
proof -
  have n: "ReplicationConfig default_before \<noteq> None \<or> ReplicationConfig default_after \<noteq> None"
    by (simp add: default_before_def test_domain_def)
  have d: "default_name default_before = ''cluster1''" "default_name default_after = ''cluster2''"
    by (simp_all add: default_name_def default_before_def default_after_def test_domain_def)
  from C2_differ_default_record [of default_before default_after] n obtain fs
    where r: "ComputeClusterFailovers (Some default_before) (Some default_after) = Inr fs"
      and f: "filter (\<lambda>f. IsDefaultCluster f = Some True) fs
                = (if default_name default_before \<noteq> default_name default_after
                   then [default_record (default_name default_before) (default_name default_after)] else [])"
    by blast
  have e: "ComputeClusterFailovers (Some default_before) (Some default_after) =
     Inr [default_record ''cluster1'' ''cluster2'']"
    by (simp add: differ_defs default_before_def default_after_def test_domain_def default_record_def)
  have "ReplicationConfig no_replication = None \<and> ReplicationConfig no_replication = None"
    by (simp add: no_replication_def)
  with C2_differ_default_record [of no_replication no_replication]
  have "ComputeClusterFailovers (Some no_replication) (Some no_replication) = Inr []"
    by blast
  with e show ?thesis by (rule conjI)
qed

subsection \<open>The change summary\<close>

lemmas summary_defs = ComputeChangeSummary_def compareClusterAttributes_def entries_def lookup_def

lemmas fixture_defs = attrs_before_def attrs_after_def mixed_before_def mixed_after_def added_after_def
  default_before_def default_after_def no_replication_def test_domain_def region_scope_def

lemmas wf_defs = wf_snapshot_def wf_clusters_def wf_scope_def wf_map_def entries_def

lemma in_compareNames:
  "r \<in> set (compareNames scope bA aE) \<longleftrightarrow>
     (\<exists>n bi ai. r = attribute_ref (scope, n) \<and> lookup bA n = Some bi \<and> (n, ai) \<in> set aE
        \<and> info_ActiveClusterName bi \<noteq> info_ActiveClusterName ai)"
proof (induction aE)
  case Nil
  then show ?case by simp
next
  case (Cons e aE)
  obtain name afterInfo where e: "e = (name, afterInfo)" by (cases e)
  show ?case
  proof (cases "lookup bA name")
    case None
    with Cons.IH e show ?thesis by auto
  next
    case (Some beforeInfo)
    with Cons.IH e show ?thesis
      by (auto simp: attribute_ref_def)
  qed
qed

lemma compareNames_names:
  "r \<in> set (compareNames scope bA aE) \<Longrightarrow> \<exists>n \<in> fst ` set aE. r = attribute_ref (scope, n)"
  by (force simp: in_compareNames)

lemma distinct_compareNames:
  "distinct (map fst aE) \<Longrightarrow> distinct (compareNames scope bA aE)"
proof (induction aE)
  case Nil
  then show ?case by simp
next
  case (Cons e aE)
  obtain name afterInfo where e: "e = (name, afterInfo)" by (cases e)
  have "attribute_ref (scope, name) \<notin> set (compareNames scope bA aE)"
  proof
    assume "attribute_ref (scope, name) \<in> set (compareNames scope bA aE)"
    from compareNames_names [OF this] have "name \<in> fst ` set aE"
      by (auto simp: attribute_ref_def)
    with Cons.prems e show False by simp
  qed
  with Cons e show ?case
    by (cases "lookup bA name") (auto simp: attribute_ref_def)
qed

lemma nil_map_no_entry: "ClusterAttributes sd = None \<Longrightarrow> (n, i) \<notin> set (entries (ClusterAttributes sd))"
  by (simp add: entries_def)

lemma nil_map_no_lookup: "ClusterAttributes sd = None \<Longrightarrow> lookup (ClusterAttributes sd) n = None"
  by (simp add: lookup_def entries_def)

lemma in_compareScopes:
  "r \<in> set (compareScopes bS aE) \<longleftrightarrow>
     (\<exists>s n bsd asd bi ai. r = attribute_ref (s, n) \<and> lookup bS s = Some bsd \<and> (s, asd) \<in> set aE
        \<and> lookup (ClusterAttributes bsd) n = Some bi \<and> (n, ai) \<in> set (entries (ClusterAttributes asd))
        \<and> info_ActiveClusterName bi \<noteq> info_ActiveClusterName ai)"
  (is "?L aE \<longleftrightarrow> ?R aE")
proof (induction aE)
  case Nil
  then show ?case by simp
next
  case (Cons e aE)
  obtain scope asd where e: "e = (scope, asd)" by (cases e)
  let ?here = "\<exists>n bsd bi ai. r = attribute_ref (scope, n) \<and> lookup bS scope = Some bsd
        \<and> lookup (ClusterAttributes bsd) n = Some bi \<and> (n, ai) \<in> set (entries (ClusterAttributes asd))
        \<and> info_ActiveClusterName bi \<noteq> info_ActiveClusterName ai"
  have split: "?R (e # aE) \<longleftrightarrow> ?here \<or> ?R aE"
    unfolding e by (simp only: set_simps insert_iff prod.inject) blast
  have here: "?L (e # aE) \<longleftrightarrow> ?here \<or> ?L aE"
  proof (cases "lookup bS scope")
    case None
    with e show ?thesis by simp
  next
    case (Some bsd)
    show ?thesis
    proof (cases "ClusterAttributes asd = None \<or> ClusterAttributes bsd = None")
      case True
      then have "\<not> ?here"
        using Some nil_map_no_entry [of asd] nil_map_no_lookup [of bsd] by auto
      moreover from True Some e have "?L (e # aE) \<longleftrightarrow> ?L aE" by auto
      ultimately show ?thesis by blast
    next
      case False
      then have "compareScopes bS (e # aE) =
          compareNames scope (ClusterAttributes bsd) (entries (ClusterAttributes asd)) @ compareScopes bS aE"
        using Some e by (simp del: not_None_eq)
      then have "?L (e # aE) \<longleftrightarrow>
          r \<in> set (compareNames scope (ClusterAttributes bsd) (entries (ClusterAttributes asd))) \<or> ?L aE"
        by simp
      also have "r \<in> set (compareNames scope (ClusterAttributes bsd) (entries (ClusterAttributes asd)))
          \<longleftrightarrow> ?here"
        unfolding in_compareNames using Some by auto
      finally show ?thesis .
    qed
  qed
  show ?case using here split Cons.IH by simp
qed

lemma in_entries_lookup: "wf_map m \<Longrightarrow> (k, v) \<in> set (entries m) \<longleftrightarrow> lookup m k = Some v"
  by (cases m) (simp_all add: wf_map_def entries_def lookup_def)

lemma wf_clusters_scope:
  "wf_clusters (Some c) \<Longrightarrow> (s, sd) \<in> set (entries (AttributeScopes c)) \<Longrightarrow> wf_map (ClusterAttributes sd)"
  by (auto simp: wf_clusters_def list_all_iff wf_scope_def)

lemma resolve_nil [simp]: "resolve None s n = None"
  by (simp add: resolve_def scopes_of_def)

lemma changed_pairs_nil [simp]: "changed_pairs None a = {}" "changed_pairs b None = {}"
  by (simp_all add: changed_pairs_def)

lemma resolve_Some:
  "resolve (Some c) s n = Some i \<longleftrightarrow>
     (\<exists>sd. lookup (AttributeScopes c) s = Some sd \<and> lookup (ClusterAttributes sd) n = Some i)"
  by (auto simp: resolve_def scopes_of_def split: option.splits)

lemma resolve_nil_scopes: "AttributeScopes c = None \<Longrightarrow> resolve (Some c) s n = None"
  by (simp add: resolve_def scopes_of_def)

lemma in_compareClusterAttributes:
  assumes "wf_clusters a"
  shows "r \<in> set (compareClusterAttributes b a) \<longleftrightarrow> r \<in> attribute_ref ` changed_pairs b a"
proof (cases b)
  case None
  then show ?thesis by (simp add: compareClusterAttributes_def)
next
  case b: (Some bc)
  show ?thesis
  proof (cases a)
    case None
    with b show ?thesis by (simp add: compareClusterAttributes_def)
  next
    case a: (Some ac)
    show ?thesis
    proof (cases "AttributeScopes bc = None \<or> AttributeScopes ac = None")
      case True
      then have "changed_pairs b a = {}"
        unfolding a b changed_pairs_def using resolve_nil_scopes by auto
      with True a b show ?thesis by (auto simp: compareClusterAttributes_def)
    next
      case False
      then have c: "compareClusterAttributes b a = compareScopes (AttributeScopes bc) (entries (AttributeScopes ac))"
        unfolding a b by (simp add: compareClusterAttributes_def del: not_None_eq)
      from assms a have w: "wf_map (AttributeScopes ac)"
        by (simp add: wf_clusters_def)
      have "r \<in> set (compareClusterAttributes b a) \<longleftrightarrow>
        (\<exists>s n bsd asd bi ai. r = attribute_ref (s, n) \<and> lookup (AttributeScopes bc) s = Some bsd
           \<and> lookup (AttributeScopes ac) s = Some asd
           \<and> lookup (ClusterAttributes bsd) n = Some bi \<and> lookup (ClusterAttributes asd) n = Some ai
           \<and> info_ActiveClusterName bi \<noteq> info_ActiveClusterName ai)" (is "_ \<longleftrightarrow> ?M")
      proof
        assume "r \<in> set (compareClusterAttributes b a)"
        then obtain s n bsd asd bi ai where r: "r = attribute_ref (s, n)"
          and 1: "lookup (AttributeScopes bc) s = Some bsd"
          and 2: "(s, asd) \<in> set (entries (AttributeScopes ac))"
          and 3: "lookup (ClusterAttributes bsd) n = Some bi"
          and 4: "(n, ai) \<in> set (entries (ClusterAttributes asd))"
          and 5: "info_ActiveClusterName bi \<noteq> info_ActiveClusterName ai"
          unfolding c in_compareScopes by blast
        from assms a 2 have "wf_map (ClusterAttributes asd)" by (auto dest: wf_clusters_scope)
        with 4 have "lookup (ClusterAttributes asd) n = Some ai" by (simp add: in_entries_lookup)
        moreover from 2 w have "lookup (AttributeScopes ac) s = Some asd" by (simp add: in_entries_lookup)
        ultimately show ?M using r 1 3 5 by blast
      next
        assume ?M
        then obtain s n bsd asd bi ai where r: "r = attribute_ref (s, n)"
          and 1: "lookup (AttributeScopes bc) s = Some bsd"
          and 2: "lookup (AttributeScopes ac) s = Some asd"
          and 3: "lookup (ClusterAttributes bsd) n = Some bi"
          and 4: "lookup (ClusterAttributes asd) n = Some ai"
          and 5: "info_ActiveClusterName bi \<noteq> info_ActiveClusterName ai"
          by blast
        from 2 w have 6: "(s, asd) \<in> set (entries (AttributeScopes ac))" by (simp add: in_entries_lookup)
        with assms a have "wf_map (ClusterAttributes asd)" by (auto dest: wf_clusters_scope)
        with 4 have "(n, ai) \<in> set (entries (ClusterAttributes asd))" by (simp add: in_entries_lookup)
        with r 1 6 3 5 show "r \<in> set (compareClusterAttributes b a)"
          unfolding c in_compareScopes by blast
      qed
      also have "?M \<longleftrightarrow> r \<in> attribute_ref ` changed_pairs b a"
        unfolding a b changed_pairs_def resolve_Some by (simp add: image_iff) blast
      finally show ?thesis .
    qed
  qed
qed



lemma set_compareClusterAttributes:
  "wf_clusters a \<Longrightarrow> set (compareClusterAttributes b a) = attribute_ref ` changed_pairs b a"
  using in_compareClusterAttributes by blast

lemma compareScopes_scopes:
  "r \<in> set (compareScopes bS aE) \<Longrightarrow> \<exists>s \<in> fst ` set aE. \<exists>n. r = attribute_ref (s, n)"
  unfolding in_compareScopes by force

lemma distinct_compareScopes:
  "distinct (map fst aE) \<Longrightarrow> list_all (\<lambda>(s, sd). wf_scope sd) aE \<Longrightarrow> distinct (compareScopes bS aE)"
proof (induction aE)
  case Nil
  then show ?case by simp
next
  case (Cons e aE)
  obtain scope asd where e: "e = (scope, asd)" by (cases e)
  from Cons.prems e have ih: "distinct (compareScopes bS aE)" and w: "wf_map (ClusterAttributes asd)"
    and fresh: "scope \<notin> fst ` set aE"
    using Cons.IH by (auto simp: wf_scope_def)
  show ?case
  proof (cases "lookup bS scope")
    case None
    with ih e show ?thesis by simp
  next
    case (Some bsd)
    let ?ns = "compareNames scope (ClusterAttributes bsd) (entries (ClusterAttributes asd))"
    from w have "distinct (map fst (entries (ClusterAttributes asd)))"
      by (cases "ClusterAttributes asd") (simp_all add: wf_map_def entries_def)
    then have d: "distinct ?ns" by (rule distinct_compareNames)
    have "set ?ns \<inter> set (compareScopes bS aE) = {}"
    proof (rule ccontr)
      assume "\<not> ?thesis"
      then obtain r where r1: "r \<in> set ?ns" and r2: "r \<in> set (compareScopes bS aE)" by blast
      from compareNames_names [OF r1] obtain n where "r = attribute_ref (scope, n)" by blast
      moreover from compareScopes_scopes [OF r2] obtain s' n' where "s' \<in> fst ` set aE"
        and "r = attribute_ref (s', n')" by blast
      ultimately have "scope \<in> fst ` set aE" by (simp add: attribute_ref_def)
      with fresh show False by simp
    qed
    with d ih Some e show ?thesis by simp
  qed
qed

lemma distinct_compareClusterAttributes:
  "wf_clusters a \<Longrightarrow> distinct (compareClusterAttributes b a)"
proof (cases a)
  case None
  then show ?thesis by (simp add: compareClusterAttributes_def split: option.splits)
next
  case (Some ac)
  assume "wf_clusters a"
  with Some have "distinct (map fst (entries (AttributeScopes ac)))"
    and "list_all (\<lambda>(s, sd). wf_scope sd) (entries (AttributeScopes ac))"
    by (auto simp: wf_clusters_def wf_map_def entries_def split: option.splits)
  then have "distinct (compareScopes bS (entries (AttributeScopes ac)))" for bS
    by (rule distinct_compareScopes)
  with Some show ?thesis by (simp add: compareClusterAttributes_def split: option.splits)
qed

lemma changed_pairs_same: "changed_pairs x x = {}"
  by (auto simp: changed_pairs_def)

lemma compareClusterAttributes_same: "wf_clusters x \<Longrightarrow> compareClusterAttributes x x = []"
  using set_compareClusterAttributes [of x x] by (simp add: changed_pairs_same)

lemma ComputeChangeSummary_missing:
  "ReplicationConfig b = None \<or> ReplicationConfig a = None \<Longrightarrow>
     ComputeChangeSummary (Some b) (Some a) = Inr empty_summary"
  by (auto simp: ComputeChangeSummary_def empty_summary_def Let_def split: option.splits)

lemma ComputeChangeSummary_both:
  "ReplicationConfig b = Some rb \<Longrightarrow> ReplicationConfig a = Some ra \<Longrightarrow>
     ComputeChangeSummary (Some b) (Some a) =
       Inr \<lparr>ChangedFields =
              (if rc_ActiveClusterName rb \<noteq> rc_ActiveClusterName ra then [''ActiveClusterName''] else [])
              @ (if compareClusterAttributes (rc_ActiveClusters rb) (rc_ActiveClusters ra) \<noteq> []
                 then [''ActiveClusters''] else []),
            DefaultClusterChanged = (rc_ActiveClusterName rb \<noteq> rc_ActiveClusterName ra),
            ClusterAttributesChanged = compareClusterAttributes (rc_ActiveClusters rb) (rc_ActiveClusters ra)\<rparr>"
  by (simp add: ComputeChangeSummary_def Let_def)


text \<open>
  Claim C4. The summary's changed-attribute list holds a reference \<open>attribute_ref (s, n)\<close>
  exactly for the pairs \<open>changed_pairs\<close>: those that both snapshots hold and whose owning
  cluster names differ; each reference once. A pair that one side lacks is never in the list
  (the witness shows a pair added on the \<^verbatim>\<open>after\<close> side: absent from the summary, reported by
  the differ). When the list is not empty, \<^verbatim>\<open>"ActiveClusters"\<close> is the last of the changed
  fields. The attribute maps of \<^verbatim>\<open>after\<close>, which the code ranges over, hold each key once.
\<close>

theorem C4_summary_attribute_refs:
  assumes "wf_snapshot a"
  shows "\<exists>sm. ComputeChangeSummary (Some b) (Some a) = Inr sm
     \<and> set (ClusterAttributesChanged sm) = attribute_ref ` changed_pairs (clusters_of b) (clusters_of a)
     \<and> distinct (ClusterAttributesChanged sm)
     \<and> (\<forall>s n. resolve (clusters_of b) s n = None \<or> resolve (clusters_of a) s n = None
            \<longrightarrow> attribute_ref (s, n) \<notin> set (ClusterAttributesChanged sm))
     \<and> (ClusterAttributesChanged sm \<noteq> [] \<longrightarrow> (\<exists>fields. ChangedFields sm = fields @ [''ActiveClusters'']))"
proof (cases "ReplicationConfig b = None \<or> ReplicationConfig a = None")
  case True
  then have "changed_pairs (clusters_of b) (clusters_of a) = {}"
    by (auto simp: clusters_of_def)
  with True show ?thesis
    by (simp add: ComputeChangeSummary_missing empty_summary_def)
next
  case False
  then obtain rb ra where rb: "ReplicationConfig b = Some rb" and ra: "ReplicationConfig a = Some ra"
    by auto
  let ?refs = "compareClusterAttributes (rc_ActiveClusters rb) (rc_ActiveClusters ra)"
  from assms ra have w: "wf_clusters (rc_ActiveClusters ra)"
    by (simp add: wf_snapshot_def)
  have c: "clusters_of b = rc_ActiveClusters rb" "clusters_of a = rc_ActiveClusters ra"
    using rb ra by (simp_all add: clusters_of_def)
  have s: "set ?refs = attribute_ref ` changed_pairs (clusters_of b) (clusters_of a)"
    unfolding c using w by (rule set_compareClusterAttributes)
  have d: "distinct ?refs"
    using w by (rule distinct_compareClusterAttributes)
  have inj: "attribute_ref p = attribute_ref q \<Longrightarrow> p = q" for p q
    by (cases p; cases q) (simp add: attribute_ref_def)
  have one: "attribute_ref (s, n) \<notin> set ?refs"
    if "resolve (clusters_of b) s n = None \<or> resolve (clusters_of a) s n = None" for s n
  proof
    assume "attribute_ref (s, n) \<in> set ?refs"
    with s obtain p where p: "p \<in> changed_pairs (clusters_of b) (clusters_of a)"
      and e: "attribute_ref (s, n) = attribute_ref p" by auto
    from e have "(s, n) = p" by (rule inj)
    with p have "(s, n) \<in> changed_pairs (clusters_of b) (clusters_of a)" by simp
    with that show False by (auto simp: changed_pairs_def)
  qed
  show ?thesis
    unfolding ComputeChangeSummary_both [OF rb ra]
    using s d one by simp
qed

theorem C4_summary_attribute_refs_witness:
  "wf_snapshot attrs_after \<and> wf_snapshot added_after
   \<and> ComputeChangeSummary (Some attrs_before) (Some attrs_after) =
       Inr \<lparr>ChangedFields = [''ActiveClusters''], DefaultClusterChanged = False,
            ClusterAttributesChanged = [attribute_ref (''region'', ''us-east-1'')]\<rparr>
   \<and> attribute_ref ` changed_pairs (clusters_of attrs_before) (clusters_of attrs_after) =
       {attribute_ref (''region'', ''us-east-1'')}
   \<and> ComputeChangeSummary (Some mixed_before) (Some added_after) = Inr empty_summary
   \<and> ComputeClusterFailovers (Some mixed_before) (Some added_after) =
       Inr [attribute_record ''region'' ''us-west-1'' None
              (Some \<lparr>info_ActiveClusterName = ''cluster2'', info_FailoverVersion = 7\<rparr>)]"
proof -
  have w: "wf_snapshot attrs_after" "wf_snapshot added_after"
    by (simp_all add: wf_defs fixture_defs)
  have e: "ComputeChangeSummary (Some attrs_before) (Some attrs_after) =
       Inr \<lparr>ChangedFields = [''ActiveClusters''], DefaultClusterChanged = False,
            ClusterAttributesChanged = [attribute_ref (''region'', ''us-east-1'')]\<rparr>"
    by (simp add: summary_defs fixture_defs attribute_ref_def)
  from C4_summary_attribute_refs [OF w(1), of attrs_before] e
  have p: "attribute_ref ` changed_pairs (clusters_of attrs_before) (clusters_of attrs_after) =
       {attribute_ref (''region'', ''us-east-1'')}"
    by auto
  have a: "ComputeChangeSummary (Some mixed_before) (Some added_after) = Inr empty_summary"
    by (simp add: summary_defs fixture_defs empty_summary_def)
  have d: "ComputeClusterFailovers (Some mixed_before) (Some added_after) =
       Inr [attribute_record ''region'' ''us-west-1'' None
              (Some \<lparr>info_ActiveClusterName = ''cluster2'', info_FailoverVersion = 7\<rparr>)]"
    by (simp add: differ_defs fixture_defs attribute_record_def owner_name_def owner_version_def)
  from w e p a d show ?thesis by blast
qed



text \<open>
  Claim C8. For non-nil snapshots \<^verbatim>\<open>ComputeChangeSummary\<close> returns a summary and no error;
  the summary is empty (\<^verbatim>\<open>DefaultClusterChanged = false\<close>, no changed field, no changed
  attribute) when either snapshot lacks the replication configuration, and when the two
  snapshots are the same well-formed snapshot.
\<close>

theorem C8_summary_total_and_empty:
  "(\<exists>sm. ComputeChangeSummary (Some b) (Some a) = Inr sm)
   \<and> (ReplicationConfig b = None \<or> ReplicationConfig a = None
        \<longrightarrow> ComputeChangeSummary (Some b) (Some a) = Inr empty_summary)
   \<and> (wf_snapshot b \<longrightarrow> ComputeChangeSummary (Some b) (Some b) = Inr empty_summary)"
proof -
  have 1: "\<exists>sm. ComputeChangeSummary (Some b) (Some a) = Inr sm"
  proof (cases "ReplicationConfig b = None \<or> ReplicationConfig a = None")
    case True
    then show ?thesis by (simp add: ComputeChangeSummary_missing)
  next
    case False
    then obtain rb ra where "ReplicationConfig b = Some rb" "ReplicationConfig a = Some ra" by auto
    then show ?thesis by (simp add: ComputeChangeSummary_both)
  qed
  have 3: "ComputeChangeSummary (Some b) (Some b) = Inr empty_summary" if w: "wf_snapshot b"
  proof (cases "ReplicationConfig b")
    case None
    then show ?thesis by (simp add: ComputeChangeSummary_missing)
  next
    case (Some rb)
    with w have "wf_clusters (rc_ActiveClusters rb)" by (simp add: wf_snapshot_def)
    then have "compareClusterAttributes (rc_ActiveClusters rb) (rc_ActiveClusters rb) = []"
      by (rule compareClusterAttributes_same)
    then show ?thesis
      by (simp add: ComputeChangeSummary_both [OF Some Some] empty_summary_def)
  qed
  from 1 3 show ?thesis by (simp add: ComputeChangeSummary_missing)
qed

theorem C8_summary_total_and_empty_witness:
  "wf_snapshot attrs_before
   \<and> ComputeChangeSummary (Some attrs_before) (Some attrs_before) = Inr empty_summary
   \<and> ComputeChangeSummary (Some no_replication) (Some default_after) = Inr empty_summary"
proof -
  have w: "wf_snapshot attrs_before"
    by (simp add: wf_defs fixture_defs)
  have n: "ReplicationConfig no_replication = None \<or> ReplicationConfig default_after = None"
    by (simp add: no_replication_def)
  from C8_summary_total_and_empty [of attrs_before attrs_before] w
  have "ComputeChangeSummary (Some attrs_before) (Some attrs_before) = Inr empty_summary" by blast
  moreover from C8_summary_total_and_empty [of no_replication default_after] n
  have "ComputeChangeSummary (Some no_replication) (Some default_after) = Inr empty_summary" by blast
  ultimately show ?thesis using w by blast
qed

text \<open>
  Claim C10. The changed-fields list of the summary is a sub-list of
  \<^verbatim>\<open>["ActiveClusterName", "ActiveClusters"]\<close> without repetition; it holds
  \<^verbatim>\<open>"ActiveClusterName"\<close> exactly when \<^verbatim>\<open>DefaultClusterChanged\<close> is true and
  \<^verbatim>\<open>"ActiveClusters"\<close> exactly when the changed-attribute list is not empty.
\<close>

theorem C10_changed_fields_shape:
  "\<exists>sm. ComputeChangeSummary (Some b) (Some a) = Inr sm
     \<and> subseq (ChangedFields sm) [''ActiveClusterName'', ''ActiveClusters'']
     \<and> distinct (ChangedFields sm)
     \<and> (''ActiveClusterName'' \<in> set (ChangedFields sm) \<longleftrightarrow> DefaultClusterChanged sm)
     \<and> (''ActiveClusters'' \<in> set (ChangedFields sm) \<longleftrightarrow> ClusterAttributesChanged sm \<noteq> [])"
proof (cases "ReplicationConfig b = None \<or> ReplicationConfig a = None")
  case True
  then show ?thesis by (simp add: ComputeChangeSummary_missing empty_summary_def)
next
  case False
  then obtain rb ra where r: "ReplicationConfig b = Some rb" "ReplicationConfig a = Some ra" by auto
  show ?thesis
    unfolding ComputeChangeSummary_both [OF r] by simp
qed

theorem C10_changed_fields_shape_witness:
  "ComputeChangeSummary (Some mixed_before) (Some mixed_after) =
     Inr \<lparr>ChangedFields = [''ActiveClusterName'', ''ActiveClusters''], DefaultClusterChanged = True,
          ClusterAttributesChanged = [attribute_ref (''region'', ''us-east-1'')]\<rparr>
   \<and> subseq [''ActiveClusterName'', ''ActiveClusters''] [''ActiveClusterName'', ''ActiveClusters'']"
proof -
  have e: "ComputeChangeSummary (Some mixed_before) (Some mixed_after) =
     Inr \<lparr>ChangedFields = [''ActiveClusterName'', ''ActiveClusters''], DefaultClusterChanged = True,
          ClusterAttributesChanged = [attribute_ref (''region'', ''us-east-1'')]\<rparr>"
    by (simp add: summary_defs fixture_defs attribute_ref_def)
  from C10_changed_fields_shape [of mixed_before mixed_after] obtain sm
    where 1: "ComputeChangeSummary (Some mixed_before) (Some mixed_after) = Inr sm"
      and 2: "subseq (ChangedFields sm) [''ActiveClusterName'', ''ActiveClusters'']"
    by blast
  from 1 e have "ChangedFields sm = [''ActiveClusterName'', ''ActiveClusters'']" by auto
  with 2 e show ?thesis by simp
qed

subsection \<open>The filter predicate\<close>

lemma matchChanged_found:
  "matchChanged req changed = Inr True \<Longrightarrow>
     \<exists>chg. Some chg \<in> set changed \<and> ref_Scope chg = attr_Scope req \<and> ref_Name chg = attr_Name req"
  by (induction req changed rule: matchChanged.induct) (auto split: if_splits)

lemma matchChanged_no_nil:
  "None \<notin> set changed \<Longrightarrow>
     matchChanged req changed =
       Inr (\<exists>chg. Some chg \<in> set changed \<and> ref_Scope chg = attr_Scope req \<and> ref_Name chg = attr_Name req)"
  by (induction req changed rule: matchChanged.induct) auto

lemma matchRequested_found:
  "matchRequested changed requested = Inr True \<Longrightarrow> attribute_matches changed requested"
proof (induction changed requested rule: matchRequested.induct)
  case (1 changed)
  then show ?case by simp
next
  case (2 changed rest)
  then show ?case by (auto simp: attribute_matches_def)
next
  case (3 changed req rest)
  show ?case
  proof (cases "matchChanged req changed")
    case (Inl panic)
    with 3 show ?thesis by simp
  next
    case (Inr found)
    show ?thesis
    proof (cases found)
      case True
      with Inr matchChanged_found [of req changed] show ?thesis
        by (auto simp: attribute_matches_def)
    next
      case False
      with Inr "3.prems" have "matchRequested changed rest = Inr True" by simp
      with "3.IH" [OF Inr False] have "attribute_matches changed rest" by simp
      then show ?thesis by (auto simp: attribute_matches_def)
    qed
  qed
qed

lemma matchRequested_no_nil:
  "None \<notin> set changed \<Longrightarrow> matchRequested changed requested = Inr (attribute_matches changed requested)"
proof (induction changed requested rule: matchRequested.induct)
  case (1 changed)
  then show ?case by (simp add: attribute_matches_def)
next
  case (2 changed rest)
  then show ?case by (auto simp: attribute_matches_def)
next
  case (3 changed req rest)
  from 3 show ?case
    by (cases "\<exists>chg. Some chg \<in> set changed \<and> ref_Scope chg = attr_Scope req \<and> ref_Name chg = attr_Name req")
      (auto simp: matchChanged_no_nil attribute_matches_def)
qed

lemma matchesAttributeFilter_found:
  "matchesAttributeFilter changed requested = Inr True \<Longrightarrow> attribute_matches changed requested"
  by (auto simp: matchesAttributeFilter_def split: if_splits dest: matchRequested_found)

lemma matchesAttributeFilter_no_nil:
  "None \<notin> set changed \<Longrightarrow> matchesAttributeFilter changed requested = Inr (attribute_matches changed requested)"
  by (cases changed) (auto simp: matchesAttributeFilter_def matchRequested_no_nil attribute_matches_def)

lemma summary_stub:
  "isl (summary_Unmarshal_stub ''not json'')"
  "summary_Unmarshal_stub ''attrs'' =
     Inr \<lparr>ChangedFields = [''ActiveClusters''], DefaultClusterChanged = False,
          ClusterAttributesChanged = [attribute_ref (''region'', ''us-east-1'')]\<rparr>"
  by (simp_all add: summary_Unmarshal_stub_def)

text \<open>
  Claim C6. \<^verbatim>\<open>shouldIncludeEvent\<close> returns true when the summary cannot be parsed,
  whatever the filters (a \<^verbatim>\<open>nil\<close> filter pointer included). When it parses: with the
  default-cluster-only filter set and \<^verbatim>\<open>DefaultClusterChanged = false\<close> it returns false;
  with a non-empty list of attribute filters it returns true only if a requested pair equals,
  in scope and name, an entry of the changed-attribute list (and, when that list has no
  \<^verbatim>\<open>nil\<close> element and the default filter does not exclude the event, exactly if so); with
  no filter of either kind it returns true.
\<close>

theorem C6_filter_predicate:
  "(isl (json_Unmarshal summaryJSON) \<longrightarrow> shouldIncludeEvent json_Unmarshal summaryJSON filters = Inr True)
   \<and> (json_Unmarshal summaryJSON = Inr summary
        \<and> DefaultActiveCluster f = Some True \<and> \<not> DefaultClusterChanged summary
      \<longrightarrow> shouldIncludeEvent json_Unmarshal summaryJSON (Some f) = Inr False)
   \<and> (json_Unmarshal summaryJSON = Inr summary \<and> Attributes f \<noteq> []
        \<and> shouldIncludeEvent json_Unmarshal summaryJSON (Some f) = Inr True
      \<longrightarrow> attribute_matches (ClusterAttributesChanged summary) (Attributes f))
   \<and> (json_Unmarshal summaryJSON = Inr summary \<and> Attributes f \<noteq> []
        \<and> None \<notin> set (ClusterAttributesChanged summary)
        \<and> \<not> (DefaultActiveCluster f = Some True \<and> \<not> DefaultClusterChanged summary)
      \<longrightarrow> shouldIncludeEvent json_Unmarshal summaryJSON (Some f)
            = Inr (attribute_matches (ClusterAttributesChanged summary) (Attributes f)))
   \<and> (json_Unmarshal summaryJSON = Inr summary
        \<and> DefaultActiveCluster f \<noteq> Some True \<and> Attributes f = []
      \<longrightarrow> shouldIncludeEvent json_Unmarshal summaryJSON (Some f) = Inr True)"
proof (intro conjI impI)
  assume "isl (json_Unmarshal summaryJSON)"
  then show "shouldIncludeEvent json_Unmarshal summaryJSON filters = Inr True"
    by (cases "json_Unmarshal summaryJSON") (simp_all add: shouldIncludeEvent_def)
next
  assume "json_Unmarshal summaryJSON = Inr summary
        \<and> DefaultActiveCluster f = Some True \<and> \<not> DefaultClusterChanged summary"
  then show "shouldIncludeEvent json_Unmarshal summaryJSON (Some f) = Inr False"
    by (simp add: shouldIncludeEvent_def)
next
  assume a: "json_Unmarshal summaryJSON = Inr summary \<and> Attributes f \<noteq> []
        \<and> shouldIncludeEvent json_Unmarshal summaryJSON (Some f) = Inr True"
  then have "matchesAttributeFilter (ClusterAttributesChanged summary) (Attributes f) = Inr True"
    by (auto simp: shouldIncludeEvent_def split: if_splits sum.splits)
  then show "attribute_matches (ClusterAttributesChanged summary) (Attributes f)"
    by (rule matchesAttributeFilter_found)
next
  assume a: "json_Unmarshal summaryJSON = Inr summary \<and> Attributes f \<noteq> []
        \<and> None \<notin> set (ClusterAttributesChanged summary)
        \<and> \<not> (DefaultActiveCluster f = Some True \<and> \<not> DefaultClusterChanged summary)"
  then have "matchesAttributeFilter (ClusterAttributesChanged summary) (Attributes f)
      = Inr (attribute_matches (ClusterAttributesChanged summary) (Attributes f))"
    by (simp add: matchesAttributeFilter_no_nil)
  with a show "shouldIncludeEvent json_Unmarshal summaryJSON (Some f)
            = Inr (attribute_matches (ClusterAttributesChanged summary) (Attributes f))"
    by (auto simp: shouldIncludeEvent_def)
next
  assume "json_Unmarshal summaryJSON = Inr summary
        \<and> DefaultActiveCluster f \<noteq> Some True \<and> Attributes f = []"
  then show "shouldIncludeEvent json_Unmarshal summaryJSON (Some f) = Inr True"
    by (simp add: shouldIncludeEvent_def)
qed

theorem C6_filter_predicate_witness:
  "shouldIncludeEvent summary_Unmarshal_stub ''not json'' None = Inr True
   \<and> shouldIncludeEvent summary_Unmarshal_stub ''attrs''
       (Some \<lparr>filters_DomainID = Some ''domain'', DefaultActiveCluster = Some True, Attributes = []\<rparr>)
     = Inr False
   \<and> shouldIncludeEvent summary_Unmarshal_stub ''attrs''
       (Some \<lparr>filters_DomainID = Some ''domain'', DefaultActiveCluster = None,
              Attributes = [None, Some \<lparr>attr_Scope = ''region'', attr_Name = ''us-east-1''\<rparr>]\<rparr>)
     = Inr True
   \<and> shouldIncludeEvent summary_Unmarshal_stub ''attrs''
       (Some \<lparr>filters_DomainID = Some ''domain'', DefaultActiveCluster = None,
              Attributes = [Some \<lparr>attr_Scope = ''region'', attr_Name = ''us-west-1''\<rparr>]\<rparr>)
     = Inr False
   \<and> shouldIncludeEvent summary_Unmarshal_stub ''attrs''
       (Some \<lparr>filters_DomainID = Some ''domain'', DefaultActiveCluster = Some False, Attributes = []\<rparr>)
     = Inr True"
proof -
  let ?sm = "\<lparr>ChangedFields = [''ActiveClusters''], DefaultClusterChanged = False,
          ClusterAttributesChanged = [attribute_ref (''region'', ''us-east-1'')]\<rparr>"
  note c = C6_filter_predicate [of summary_Unmarshal_stub]
  have 1: "shouldIncludeEvent summary_Unmarshal_stub ''not json'' None = Inr True"
    using c [of "''not json''" None] summary_stub(1) by blast
  have 2: "shouldIncludeEvent summary_Unmarshal_stub ''attrs''
       (Some \<lparr>filters_DomainID = Some ''domain'', DefaultActiveCluster = Some True, Attributes = []\<rparr>)
     = Inr False"
    using c [of "''attrs''" None ?sm "\<lparr>filters_DomainID = Some ''domain'', DefaultActiveCluster = Some True, Attributes = []\<rparr>"]
      summary_stub(2) by simp
  have 3: "shouldIncludeEvent summary_Unmarshal_stub ''attrs''
       (Some \<lparr>filters_DomainID = Some ''domain'', DefaultActiveCluster = None,
              Attributes = [None, Some \<lparr>attr_Scope = ''region'', attr_Name = ''us-east-1''\<rparr>]\<rparr>)
     = Inr True"
    using c [of "''attrs''" None ?sm "\<lparr>filters_DomainID = Some ''domain'', DefaultActiveCluster = None,
              Attributes = [None, Some \<lparr>attr_Scope = ''region'', attr_Name = ''us-east-1''\<rparr>]\<rparr>"]
      summary_stub(2) by (simp add: attribute_matches_def attribute_ref_def)
  have 4: "shouldIncludeEvent summary_Unmarshal_stub ''attrs''
       (Some \<lparr>filters_DomainID = Some ''domain'', DefaultActiveCluster = None,
              Attributes = [Some \<lparr>attr_Scope = ''region'', attr_Name = ''us-west-1''\<rparr>]\<rparr>)
     = Inr False"
    using c [of "''attrs''" None ?sm "\<lparr>filters_DomainID = Some ''domain'', DefaultActiveCluster = None,
              Attributes = [Some \<lparr>attr_Scope = ''region'', attr_Name = ''us-west-1''\<rparr>]\<rparr>"]
      summary_stub(2) by (simp add: attribute_matches_def attribute_ref_def)
  have 5: "shouldIncludeEvent summary_Unmarshal_stub ''attrs''
       (Some \<lparr>filters_DomainID = Some ''domain'', DefaultActiveCluster = Some False, Attributes = []\<rparr>)
     = Inr True"
    using c [of "''attrs''" None ?sm "\<lparr>filters_DomainID = Some ''domain'', DefaultActiveCluster = Some False, Attributes = []\<rparr>"]
      summary_stub(2) by simp
  from 1 2 3 4 5 show ?thesis by blast
qed

subsection \<open>The snapshot codec\<close>

lemma decode_stub:
  "DecompressAndDeserialize snappy_Decode_stub json_Unmarshal_stub [1, 1] = Inr default_before"
  "DecompressAndDeserialize snappy_Decode_stub json_Unmarshal_stub [1, 2] = Inr default_after"
  "isl (DecompressAndDeserialize snappy_Decode_stub json_Unmarshal_stub [])"
  "isl (DecompressAndDeserialize snappy_Decode_stub json_Unmarshal_stub [1, 3])"
  by (simp_all add: DecompressAndDeserialize_def snappy_Decode_stub_def json_Unmarshal_stub_def)

text \<open>
  The two functions apply the libraries in inverse order and hand every error on: if
  \<^verbatim>\<open>json.Marshal\<close> accepts a snapshot, \<^verbatim>\<open>snappy.Decode\<close> undoes \<^verbatim>\<open>snappy.Encode\<close> on the
  marshalled bytes and \<^verbatim>\<open>json.Unmarshal\<close> maps them back to the snapshot, then decoding
  the encoded snapshot returns it. Whether the libraries do so for a given snapshot is their
  matter, not that of the code modelled here.
\<close>

lemma codec_composition:
  assumes "json_Marshal (Some s) = Inr jsonBytes"
    and "snappy_Decode (snappy_Encode jsonBytes) = Inr jsonBytes"
    and "json_Unmarshal jsonBytes = Inr s"
  shows "\<exists>compressed. SerializeAndCompress json_Marshal snappy_Encode (Some s) = Inr compressed
     \<and> DecompressAndDeserialize snappy_Decode json_Unmarshal compressed = Inr s"
  using assms by (simp add: SerializeAndCompress_def DecompressAndDeserialize_def)



subsection \<open>The get path\<close>

lemma GetFailoverEvent_valid:
  assumes "req_DomainID r = Some d" and "d \<noteq> []" and "req_FailoverEventID r = Some e" and "e \<noteq> []"
    and "req_CreatedTime r = Some t"
  shows "GetFailoverEvent sd ju get False (Some r) =
     (case get \<lparr>query_DomainID = d, query_EventID = e, query_CreatedTime = t * 1000000\<rparr> of
        Inl err \<Rightarrow> Inl err
      | Inr None \<Rightarrow> Inr empty_response
      | Inr (Some entryResp) \<Rightarrow>
          (case Entry entryResp of
             None \<Rightarrow> Inr empty_response
           | Some entry \<Rightarrow>
               (case DecompressAndDeserialize sd ju (StateBefore entry) of
                  Inl err \<Rightarrow> Inl (InternalServiceError ''Failed to decompress domain state'')
                | Inr before \<Rightarrow>
                    (case DecompressAndDeserialize sd ju (StateAfter entry) of
                       Inl err \<Rightarrow> Inl (InternalServiceError ''Failed to decompress domain state'')
                     | Inr after \<Rightarrow>
                         Inr \<lparr>ClusterFailovers = projr (ComputeClusterFailovers (Some before) (Some after))\<rparr>))))"
  using assms
  by (simp add: GetFailoverEvent_def empty_response_def ComputeClusterFailovers_eq
      split: sum.splits option.splits)

lemma request_valid:
  "req_DomainID test_request = Some ''domain''" "''domain'' \<noteq> []"
  "req_FailoverEventID test_request = Some ''event''" "''event'' \<noteq> []"
  "req_CreatedTime test_request = Some 1"
  by (simp_all add: test_request_def)

text \<open>
  Whatever the decoder does with the empty payload, the get path cannot answer every entry
  without a \<^verbatim>\<open>StateBefore\<close> payload with the empty response, as soon as the decoder yields
  two snapshots with different default clusters.
\<close>

lemma empty_payload_not_special:
  assumes r: "req_DomainID r = Some d" "d \<noteq> []" "req_FailoverEventID r = Some e" "e \<noteq> []"
      "req_CreatedTime r = Some t"
    and p1: "DecompressAndDeserialize sd ju p1 = Inr s1" and p2: "DecompressAndDeserialize sd ju p2 = Inr s2"
    and rc: "ReplicationConfig s1 \<noteq> None" "ReplicationConfig s2 \<noteq> None"
    and ne: "default_name s1 \<noteq> default_name s2"
  shows "\<exists>p \<in> {p1, p2}.
     GetFailoverEvent sd ju (storage_stub (Some (test_entry [] p))) False (Some r) \<noteq> Inr empty_response"
proof (cases "DecompressAndDeserialize sd ju []")
  case (Inl err)
  then show ?thesis
    unfolding GetFailoverEvent_valid [OF r]
    by (auto simp: storage_stub_def test_entry_def)
next
  case (Inr s0)
  from ne have "default_name s0 \<noteq> default_name s1 \<or> default_name s0 \<noteq> default_name s2" by auto
  then show ?thesis
  proof
    assume "default_name s0 \<noteq> default_name s1"
    with Inr p1 rc(1) have "GetFailoverEvent sd ju (storage_stub (Some (test_entry [] p1))) False (Some r)
        \<noteq> Inr empty_response"
      unfolding GetFailoverEvent_valid [OF r]
      by (simp add: storage_stub_def test_entry_def ComputeClusterFailovers_eq empty_response_def)
    then show ?thesis by blast
  next
    assume "default_name s0 \<noteq> default_name s2"
    with Inr p2 rc(2) have "GetFailoverEvent sd ju (storage_stub (Some (test_entry [] p2))) False (Some r)
        \<noteq> Inr empty_response"
      unfolding GetFailoverEvent_valid [OF r]
      by (simp add: storage_stub_def test_entry_def ComputeClusterFailovers_eq empty_response_def)
    then show ?thesis by blast
  qed
qed

text \<open>
  Claim C7, as amended. For a valid request on a running handler: a missing audit-log entry
  (a \<^verbatim>\<open>nil\<close> response, or a response with a \<^verbatim>\<open>nil\<close> entry) gives the empty response and
  no error; an entry one of whose payloads fails to decode gives the internal error
  \<^verbatim>\<open>"Failed to decompress domain state"\<close>; an entry whose two payloads decode gives the
  records of \<^verbatim>\<open>ComputeClusterFailovers\<close>. No payload is treated as missing: an empty payload
  goes to the decoder as every other does.
\<close>

theorem C7_get_path:
  assumes "req_DomainID r = Some d" and "d \<noteq> []" and "req_FailoverEventID r = Some e" and "e \<noteq> []"
    and "req_CreatedTime r = Some t"
  shows
   "(get \<lparr>query_DomainID = d, query_EventID = e, query_CreatedTime = t * 1000000\<rparr> = Inr None
       \<longrightarrow> GetFailoverEvent sd ju get False (Some r) = Inr empty_response)
    \<and> (\<forall>resp. get \<lparr>query_DomainID = d, query_EventID = e, query_CreatedTime = t * 1000000\<rparr> = Inr (Some resp)
          \<and> Entry resp = None
       \<longrightarrow> GetFailoverEvent sd ju get False (Some r) = Inr empty_response)
    \<and> (\<forall>resp entry. get \<lparr>query_DomainID = d, query_EventID = e, query_CreatedTime = t * 1000000\<rparr> = Inr (Some resp)
          \<and> Entry resp = Some entry
          \<and> (isl (DecompressAndDeserialize sd ju (StateBefore entry))
              \<or> isl (DecompressAndDeserialize sd ju (StateAfter entry)))
       \<longrightarrow> GetFailoverEvent sd ju get False (Some r)
             = Inl (InternalServiceError ''Failed to decompress domain state''))
    \<and> (\<forall>resp entry before after.
          get \<lparr>query_DomainID = d, query_EventID = e, query_CreatedTime = t * 1000000\<rparr> = Inr (Some resp)
          \<and> Entry resp = Some entry
          \<and> DecompressAndDeserialize sd ju (StateBefore entry) = Inr before
          \<and> DecompressAndDeserialize sd ju (StateAfter entry) = Inr after
       \<longrightarrow> (\<exists>fs. ComputeClusterFailovers (Some before) (Some after) = Inr fs
              \<and> GetFailoverEvent sd ju get False (Some r) = Inr \<lparr>ClusterFailovers = fs\<rparr>))"
  unfolding GetFailoverEvent_valid [OF assms]
  by (auto simp: ComputeClusterFailovers_eq isl_def split: sum.splits)

theorem C7_get_path_witness:
  "GetFailoverEvent snappy_Decode_stub json_Unmarshal_stub (\<lambda>q. Inr None) False (Some test_request)
     = Inr empty_response
   \<and> GetFailoverEvent snappy_Decode_stub json_Unmarshal_stub (storage_stub None) False (Some test_request)
     = Inr empty_response
   \<and> GetFailoverEvent snappy_Decode_stub json_Unmarshal_stub (storage_stub (Some (test_entry [1, 1] [1, 3])))
        False (Some test_request)
     = Inl (InternalServiceError ''Failed to decompress domain state'')
   \<and> GetFailoverEvent snappy_Decode_stub json_Unmarshal_stub (storage_stub (Some (test_entry [1, 1] [1, 2])))
        False (Some test_request)
     = Inr \<lparr>ClusterFailovers = [default_record ''cluster1'' ''cluster2'']\<rparr>"
proof -
  note c = C7_get_path [OF request_valid, of _ snappy_Decode_stub json_Unmarshal_stub]
  have 1: "GetFailoverEvent snappy_Decode_stub json_Unmarshal_stub (\<lambda>q. Inr None) False (Some test_request)
     = Inr empty_response"
    using c [of "\<lambda>q. Inr None"] by simp
  have 2: "GetFailoverEvent snappy_Decode_stub json_Unmarshal_stub (storage_stub None) False (Some test_request)
     = Inr empty_response"
    using c [of "storage_stub None"] by (simp add: storage_stub_def)
  have 3: "GetFailoverEvent snappy_Decode_stub json_Unmarshal_stub (storage_stub (Some (test_entry [1, 1] [1, 3])))
        False (Some test_request)
     = Inl (InternalServiceError ''Failed to decompress domain state'')"
    using c [of "storage_stub (Some (test_entry [1, 1] [1, 3]))"] decode_stub(4)
    by (simp add: storage_stub_def test_entry_def)
  have e: "ComputeClusterFailovers (Some default_before) (Some default_after) =
     Inr [default_record ''cluster1'' ''cluster2'']"
    by (simp add: differ_defs default_before_def default_after_def test_domain_def default_record_def)
  have 4: "GetFailoverEvent snappy_Decode_stub json_Unmarshal_stub (storage_stub (Some (test_entry [1, 1] [1, 2])))
        False (Some test_request)
     = Inr \<lparr>ClusterFailovers = [default_record ''cluster1'' ''cluster2'']\<rparr>"
    using c [of "storage_stub (Some (test_entry [1, 1] [1, 2]))"] decode_stub(1,2) e
    by (simp add: storage_stub_def test_entry_def)
  from 1 2 3 4 show ?thesis by blast
qed

text \<open>
  The claim C7 as stated fails: an entry whose \<^verbatim>\<open>StateBefore\<close> payload is missing (empty)
  gives an internal error, not the empty response, with a decompressor that rejects the empty
  input. The lemma \<open>empty_payload_not_special\<close> above shows that no decoder does better.
\<close>

theorem C7_get_path_counterexample:
  "StateBefore (test_entry [] [2]) = []
   \<and> GetFailoverEvent snappy_Decode_stub json_Unmarshal_stub (storage_stub (Some (test_entry [] [2])))
        False (Some test_request)
      = Inl (InternalServiceError ''Failed to decompress domain state'')"
  by (simp add: GetFailoverEvent_def DecompressAndDeserialize_def snappy_Decode_stub_def
      storage_stub_def test_entry_def test_request_def)

end
